theory Spec2Isabelle
  imports Main
begin

section \<open>Text primitives of the host language\<close>

text \<open>
  A text is a list of characters; a character stands for the code point of the same
  number, so the model covers the texts over the code points 0 to 255. The predicates
  below are the host language's \<^verbatim>\<open>str.isspace\<close>, \<^verbatim>\<open>str.isdigit\<close>
  and \<^verbatim>\<open>str.lower\<close> on that range.
\<close>

definition isspace :: "char \<Rightarrow> bool" where
  "isspace c = (let n = (of_char c :: nat) in
     (9 \<le> n \<and> n \<le> 13) \<or> (28 \<le> n \<and> n \<le> 32) \<or> n = 133 \<or> n = 160)"

definition is_dec :: "char \<Rightarrow> bool" where
  "is_dec c = (let n = (of_char c :: nat) in 48 \<le> n \<and> n \<le> 57)"

definition isdigit_char :: "char \<Rightarrow> bool" where
  "isdigit_char c = (let n = (of_char c :: nat) in
     (48 \<le> n \<and> n \<le> 57) \<or> n = 178 \<or> n = 179 \<or> n = 185)"

text \<open>\<^verbatim>\<open>s.isdigit()\<close>: a non-empty text of digit characters (superscript digits count).\<close>

definition isdigit :: "string \<Rightarrow> bool" where
  "isdigit s = (s \<noteq> [] \<and> list_all isdigit_char s)"

definition py_lstrip :: "string \<Rightarrow> string" where
  "py_lstrip s = dropWhile isspace s"

definition py_rstrip :: "string \<Rightarrow> string" where
  "py_rstrip s = rev (dropWhile isspace (rev s))"

text \<open>\<^verbatim>\<open>s.strip()\<close>\<close>

definition py_strip :: "string \<Rightarrow> string" where
  "py_strip s = py_rstrip (py_lstrip s)"

text \<open>
  \<^verbatim>\<open>s.split()\<close>: the maximal runs of non-space characters, in order. The second
  argument is the token being read.
\<close>

fun split_ws :: "string \<Rightarrow> string \<Rightarrow> string list" where
  "split_ws [] cur = (if cur = [] then [] else [cur])"
| "split_ws (c # cs) cur =
     (if isspace c then (if cur = [] then split_ws cs [] else cur # split_ws cs [])
      else split_ws cs (cur @ [c]))"

definition py_split :: "string \<Rightarrow> string list" where
  "py_split s = split_ws s []"

text \<open>\<^verbatim>\<open>s.split(sep)\<close> for a separator of one character: never empty.\<close>

fun split_on :: "char \<Rightarrow> string \<Rightarrow> string list" where
  "split_on sep [] = [[]]"
| "split_on sep (c # cs) =
     (if c = sep then [] # split_on sep cs
      else (case split_on sep cs of [] \<Rightarrow> [[c]] | l # ls \<Rightarrow> (c # l) # ls))"

text \<open>\<^verbatim>\<open>sep.join(xs)\<close>\<close>

fun py_join :: "string \<Rightarrow> string list \<Rightarrow> string" where
  "py_join sep [] = []"
| "py_join sep [x] = x"
| "py_join sep (x # y # ys) = x @ sep @ py_join sep (y # ys)"

definition startswith :: "string \<Rightarrow> string \<Rightarrow> bool" where
  "startswith s p = (take (length p) s = p)"

definition py_lower :: "char \<Rightarrow> char" where
  "py_lower c = (let n = (of_char c :: nat) in
     if (65 \<le> n \<and> n \<le> 90) \<or> (192 \<le> n \<and> n \<le> 214) \<or> (216 \<le> n \<and> n \<le> 222)
     then char_of (n + 32) else c)"

definition py_upper :: "char \<Rightarrow> char" where
  "py_upper c = (let n = (of_char c :: nat) in
     if (97 \<le> n \<and> n \<le> 122) \<or> (224 \<le> n \<and> n \<le> 246) \<or> (248 \<le> n \<and> n \<le> 254)
     then char_of (n - 32) else c)"

text \<open>
  \<^verbatim>\<open>s.capitalize()\<close>: the first character in upper case, the rest in lower case. The
  three code points of the range whose upper case is not one code point of the range
  (181, 223, 255) are left as they are; the interpreter only capitalizes texts that
  start with one of the letters e, a, f.
\<close>

definition capitalize :: "string \<Rightarrow> string" where
  "capitalize s = (case s of [] \<Rightarrow> [] | c # cs \<Rightarrow> py_upper c # map py_lower cs)"

text \<open>
  The exceptions that the interpreter's code can raise, with their message
  (\<^verbatim>\<open>str(e)\<close>).
\<close>

datatype error =
    ValueError string
  | IndexError string

fun str_of :: "error \<Rightarrow> string" where
  "str_of (ValueError m) = m"
| "str_of (IndexError m) = m"

text \<open>
  \<^verbatim>\<open>int(s)\<close>: surrounding blanks are dropped (the conversion's own blanks: 9 to 13,
  32, 133, 160), then an optional sign, then decimal digits with single underscores
  between digits. The conversion fails with a ValueError in two ways: the text is not
  such a literal, or the literal has more digits than the limit of the host language
  (4300 unless the program changes it, which this one does not).
\<close>

definition int_space :: "char \<Rightarrow> bool" where
  "int_space c = (let n = (of_char c :: nat) in
     (9 \<le> n \<and> n \<le> 13) \<or> n = 32 \<or> n = 133 \<or> n = 160)"

definition digit_val :: "char \<Rightarrow> nat" where
  "digit_val c = of_char c - 48"

datatype int_failure = InvalidLiteral | ExceedsLimit nat

definition max_str_digits :: nat where
  "max_str_digits = 4300"

text \<open>
  The scan over the digits and underscores that follow the sign. \<open>pu\<close> says that the
  character before was an underscore, \<open>digits\<close> counts the digits read and \<open>acc\<close>
  is their value. The scan ends at the first character that is neither, and returns
  the count, the value and the rest; two underscores in a row, or an underscore at the
  end of the run, make the text no literal.
\<close>

fun int_scan :: "string \<Rightarrow> bool \<Rightarrow> nat \<Rightarrow> nat \<Rightarrow> int_failure + nat \<times> nat \<times> string" where
  "int_scan [] pu digits acc =
     (if pu then Inl InvalidLiteral else Inr (digits, acc, []))"
| "int_scan (c # cs) pu digits acc =
     (if is_dec c then int_scan cs False (digits + 1) (acc * 10 + digit_val c)
      else if c = CHR ''_'' then
        (if pu then Inl InvalidLiteral else int_scan cs True digits acc)
      else if pu then Inl InvalidLiteral
      else Inr (digits, acc, c # cs))"

text \<open>
  The literal without its sign: no underscore in front; the limit on the digits is
  checked after the scan and before anything else; then there must be a digit and
  nothing after the run.
\<close>

definition int_unsigned :: "string \<Rightarrow> int_failure + nat" where
  "int_unsigned s =
     (if startswith s ''_'' then Inl InvalidLiteral
      else (case int_scan s False 0 0 of
              Inl e \<Rightarrow> Inl e
            | Inr (digits, v, rest) \<Rightarrow>
                if max_str_digits < digits then Inl (ExceedsLimit digits)
                else if digits = 0 then Inl InvalidLiteral
                else if rest = [] then Inr v
                else Inl InvalidLiteral))"

definition int_signed :: "string \<Rightarrow> int_failure + int" where
  "int_signed s = (case rev (dropWhile int_space (rev (dropWhile int_space s))) of
       [] \<Rightarrow> Inl InvalidLiteral
     | c # cs \<Rightarrow>
         if c = CHR ''-'' then
           (case int_unsigned cs of Inl e \<Rightarrow> Inl e | Inr n \<Rightarrow> Inr (- int n))
         else if c = CHR ''+'' then
           (case int_unsigned cs of Inl e \<Rightarrow> Inl e | Inr n \<Rightarrow> Inr (int n))
         else
           (case int_unsigned (c # cs) of Inl e \<Rightarrow> Inl e | Inr n \<Rightarrow> Inr (int n)))"

text \<open>\<^verbatim>\<open>int(s)\<close> where the failure is caught and not looked at: \<open>None\<close>.\<close>

definition py_int :: "string \<Rightarrow> int option" where
  "py_int s = (case int_signed s of Inl e \<Rightarrow> None | Inr n \<Rightarrow> Some n)"

text \<open>The decimal text of a number, as \<^verbatim>\<open>str(n)\<close> writes it.\<close>

function show_nat :: "nat \<Rightarrow> string" where
  "show_nat n = (if n < 10 then [char_of (48 + n)]
                 else show_nat (n div 10) @ [char_of (48 + n mod 10)])"
  by pat_completeness auto
termination
  by (relation "measure id") auto

declare show_nat.simps [simp del]

text \<open>
  \<^verbatim>\<open>int(s)\<close> where the failure is reported, with the message of the ValueError.
  The first message quotes the text; the interpreter reports it only for texts of
  digit characters, which need no escapes.
\<close>

definition int_or_raise :: "string \<Rightarrow> error + int" where
  "int_or_raise s = (case int_signed s of
       Inl InvalidLiteral \<Rightarrow>
         Inl (ValueError (''invalid literal for int() with base 10: '' @
                          [CHR 0x27] @ s @ [CHR 0x27]))
     | Inl (ExceedsLimit d) \<Rightarrow>
         Inl (ValueError (''Exceeds the limit (4300 digits) for integer string conversion: '' @
                          ''value has '' @ show_nat d @
                          '' digits; use sys.set_int_max_str_digits() to increase the limit''))
     | Inr n \<Rightarrow> Inr n)"

text \<open>\<^verbatim>\<open>a, b = xs\<close>\<close>

definition unpack2 :: "string list \<Rightarrow> error + (string \<times> string)" where
  "unpack2 xs = (case xs of
       [] \<Rightarrow> Inl (ValueError ''not enough values to unpack (expected 2, got 0)'')
     | [a] \<Rightarrow> Inl (ValueError ''not enough values to unpack (expected 2, got 1)'')
     | [a, b] \<Rightarrow> Inr (a, b)
     | _ \<Rightarrow> Inl (ValueError ''too many values to unpack (expected 2)''))"

text \<open>\<^verbatim>\<open>a, b, c, d, e = xs\<close> for a list of another length than five.\<close>

definition unpack5_error :: "string list \<Rightarrow> error" where
  "unpack5_error xs =
     (if length xs < 5
      then ValueError (''not enough values to unpack (expected 5, got '' @
                       [char_of (48 + length xs)] @ '')'')
      else ValueError ''too many values to unpack (expected 5)'')"

section \<open>Clock values\<close>

text \<open>
  A naive \<^verbatim>\<open>datetime\<close> is the number of microseconds since 0001-01-01 00:00:00,
  which is how the host language adds a \<^verbatim>\<open>timedelta\<close> to it. The last value is
  9999-12-31 23:59:59.999999 (day 3652059 of the calendar); a sum outside the range is
  an OverflowError, and so is a \<^verbatim>\<open>timedelta\<close> too large to build, whose range is
  wider than the calendar's.
\<close>

type_synonym datetime = int

definition US_MIN :: int where "US_MIN = 60000000"
definition US_HOUR :: int where "US_HOUR = 3600000000"
definition US_DAY :: int where "US_DAY = 86400000000"
definition DT_END :: int where "DT_END = 3652059 * 86400000000"

definition dt_valid :: "datetime \<Rightarrow> bool" where
  "dt_valid t = (0 \<le> t \<and> t < DT_END)"

text \<open>\<^verbatim>\<open>t + timedelta(microseconds=us)\<close>; \<open>None\<close> is the OverflowError.\<close>

definition dt_add :: "datetime \<Rightarrow> int \<Rightarrow> datetime option" where
  "dt_add t us = (if dt_valid (t + us) then Some (t + us) else None)"

text \<open>
  \<^verbatim>\<open>t.replace(hour=h, minute=m, second=0, microsecond=0)\<close>; \<open>None\<close> is the
  ValueError for an hour outside 0..23 or a minute outside 0..59.
\<close>

definition replace_hm :: "datetime \<Rightarrow> int \<Rightarrow> int \<Rightarrow> datetime option" where
  "replace_hm t h m =
     (if 0 \<le> h \<and> h \<le> 23 \<and> 0 \<le> m \<and> m \<le> 59
      then Some ((t div US_DAY) * US_DAY + h * US_HOUR + m * US_MIN) else None)"

text \<open>\<^verbatim>\<open>t.replace(minute=0, second=0, microsecond=0)\<close>\<close>

definition replace_m0 :: "datetime \<Rightarrow> datetime" where
  "replace_m0 t = (t div US_HOUR) * US_HOUR"

text \<open>
  \<^verbatim>\<open>t.strftime("%Y-%m-%d %H:%M")\<close> writes the date, the hour and the minute of
  \<open>t\<close> and nothing else. The model keeps the minute so named, as the number of whole
  minutes since 0001-01-01 00:00: two clock values get the same text exactly when they
  lie in the same minute, and the order of the minutes is the chronological order of
  the texts.
\<close>

type_synonym stamp = int

definition strftime :: "datetime \<Rightarrow> stamp" where
  "strftime t = t div US_MIN"

section \<open>The schedule interpreter (class CronPreview)\<close>

record parse_result =
  valid :: bool
  description :: string
  next_runs :: "stamp list"
  explanation :: string
  breakdown :: "(string \<times> string) list option"

subsection \<open>calculate_next_runs\<close>

text \<open>
  The three loops of the projector. Each runs over \<^verbatim>\<open>range(count)\<close> and appends
  to \<open>acc\<close>; an exception leaves the loop with what was appended so far, which is
  what the \<^verbatim>\<open>except Exception: pass\<close> around them returns.
\<close>

text \<open>\<^verbatim>\<open>now + timedelta(...=step * (i+1))\<close>, with \<open>unit\<close> the microseconds of the unit.\<close>

fun offset_loop :: "datetime \<Rightarrow> int \<Rightarrow> nat list \<Rightarrow> stamp list \<Rightarrow> stamp list" where
  "offset_loop now step [] acc = acc"
| "offset_loop now step (i # is) acc =
     (case dt_add now (step * (int i + 1)) of
        None \<Rightarrow> acc
      | Some next_run \<Rightarrow> offset_loop now step is (acc @ [strftime next_run]))"

fun daily_loop :: "datetime \<Rightarrow> datetime \<Rightarrow> nat list \<Rightarrow> stamp list \<Rightarrow> stamp list" where
  "daily_loop now next_run [] acc = acc"
| "daily_loop now next_run (i # is) acc =
     (case (if next_run \<le> now then dt_add next_run US_DAY else Some next_run) of
        None \<Rightarrow> acc
      | Some nr \<Rightarrow>
          (case dt_add nr US_DAY of
             None \<Rightarrow> acc @ [strftime nr]
           | Some nr' \<Rightarrow> daily_loop now nr' is (acc @ [strftime nr])))"

fun hourly_loop :: "datetime \<Rightarrow> nat list \<Rightarrow> stamp list \<Rightarrow> stamp list" where
  "hourly_loop next_run [] acc = acc"
| "hourly_loop next_run (i # is) acc =
     (case dt_add next_run US_HOUR of
        None \<Rightarrow> acc @ [strftime next_run]
      | Some nr' \<Rightarrow> hourly_loop nr' is (acc @ [strftime next_run]))"

text \<open>
  The body of the \<^verbatim>\<open>try\<close>: the branches in the order of the source. \<open>now\<close> is
  the value of \<^verbatim>\<open>datetime.now()\<close>.
\<close>

definition next_runs_body ::
  "datetime \<Rightarrow> string list \<Rightarrow> string \<Rightarrow> string \<Rightarrow> nat \<Rightarrow> stamp list" where
  "next_runs_body now parts minute hour count =
     (if parts = [''*'', ''*'', ''*'', ''*'', ''*''] then
        offset_loop now US_MIN [0..<count] []
      else if startswith minute ''*/'' \<and> hour = ''*'' then
        (case py_int (drop 2 minute) of
           None \<Rightarrow> []
         | Some interval \<Rightarrow> offset_loop now (US_MIN * interval) [0..<count] [])
      else if isdigit minute \<and> isdigit hour then
        (case py_int hour of
           None \<Rightarrow> []
         | Some target_hour \<Rightarrow>
             (case py_int minute of
                None \<Rightarrow> []
              | Some target_minute \<Rightarrow>
                  (case replace_hm now target_hour target_minute of
                     None \<Rightarrow> []
                   | Some next_run \<Rightarrow> daily_loop now next_run [0..<count] [])))
      else if minute = ''0'' \<and> hour = ''*'' then
        (case dt_add (replace_m0 now) US_HOUR of
           None \<Rightarrow> []
         | Some next_run \<Rightarrow> hourly_loop next_run [0..<count] [])
      else
        offset_loop now US_HOUR [0..<count] [])"

text \<open>
  \<^verbatim>\<open>calculate_next_runs(parts, count=5)\<close>. The unpacking of \<open>parts\<close> is outside
  the \<^verbatim>\<open>try\<close>, so a list of another length raises to the caller.
\<close>

definition calculate_next_runs :: "datetime \<Rightarrow> string list \<Rightarrow> nat \<Rightarrow> error + stamp list" where
  "calculate_next_runs now parts count = (case parts of
       [minute, hour, day, month, weekday] \<Rightarrow>
         Inr (take count (next_runs_body now parts minute hour count))
     | _ \<Rightarrow> Inl (unpack5_error parts))"

subsection \<open>explain_field\<close>

text \<open>
  \<^verbatim>\<open>explain_field(field, field_name, min_val, max_val)\<close>: the two bounds are not
  read by the body.
\<close>

definition explain_field :: "string \<Rightarrow> string \<Rightarrow> int \<Rightarrow> int \<Rightarrow> error + string" where
  "explain_field field field_name min_val max_val =
     (if field = ''*'' then Inr (''Any '' @ field_name)
      else if CHR ''/'' \<in> set field then
        (if startswith field ''*/'' then
           Inr (''Every '' @ drop 2 field @ '' '' @ field_name @ ''s'')
         else
           (case split_on CHR ''/'' field of
              a # n # _ \<Rightarrow>
                Inr (''Every '' @ n @ '' '' @ field_name @ ''s starting from '' @ a)
            | _ \<Rightarrow> Inl (IndexError ''list index out of range'')))
      else if CHR '','' \<in> set field then Inr (field_name @ ''s: '' @ field)
      else if CHR ''-'' \<in> set field then
        (case unpack2 (split_on CHR ''-'' field) of
           Inl e \<Rightarrow> Inl e
         | Inr (start, end) \<Rightarrow> Inr (field_name @ ''s from '' @ start @ '' to '' @ end))
      else Inr (field_name @ '' '' @ field))"

subsection \<open>get_common_patterns\<close>

definition patterns :: "(string \<times> string) list" where
  "patterns =
     [(''* * * * *'', ''Every minute''),
      (''0 * * * *'', ''Every hour''),
      (''0 0 * * *'', ''Daily at midnight''),
      (''0 12 * * *'', ''Daily at noon''),
      (''0 9 * * 1'', ''Every Monday at 9 AM''),
      (''0 0 1 * *'', ''First day of every month''),
      (''0 0 1 1 *'', ''Every New Year (January 1st)''),
      (''*/5 * * * *'', ''Every 5 minutes''),
      (''*/15 * * * *'', ''Every 15 minutes''),
      (''*/30 * * * *'', ''Every 30 minutes''),
      (''0 */6 * * *'', ''Every 6 hours''),
      (''0 2 * * *'', ''Daily at 2 AM''),
      (''0 0 * * 0'', ''Every Sunday at midnight''),
      (''0 0 * * 1-5'', ''Weekdays at midnight''),
      (''30 2 * * 1-5'', ''Weekdays at 2:30 AM'')]"

definition get_common_patterns :: "string \<Rightarrow> string option" where
  "get_common_patterns expression = map_of patterns expression"

subsection \<open>parse_cron: the phrase of each field\<close>

text \<open>
  Each function is one block of \<^verbatim>\<open>parse_cron\<close> and returns what the block appends
  to \<^verbatim>\<open>explanation_parts\<close>: one phrase or none, or the exception it raises.
\<close>

definition explain_minute :: "string \<Rightarrow> error + string list" where
  "explain_minute minute =
     (if minute = ''*'' then Inr [''every minute'']
      else if CHR ''/'' \<in> set minute then
        (if startswith minute ''*/'' then Inr [''every '' @ drop 2 minute @ '' minutes'']
         else
           (case split_on CHR ''/'' minute of
              a # n # _ \<Rightarrow> Inr [''every '' @ n @ '' minutes starting at minute '' @ a]
            | _ \<Rightarrow> Inl (IndexError ''list index out of range'')))
      else if CHR '','' \<in> set minute then Inr [''at minutes '' @ minute]
      else if CHR ''-'' \<in> set minute then
        (case unpack2 (split_on CHR ''-'' minute) of
           Inl e \<Rightarrow> Inl e
         | Inr (start, end) \<Rightarrow> Inr [''from minute '' @ start @ '' to '' @ end])
      else Inr [''at minute '' @ minute])"

definition explain_hour :: "string \<Rightarrow> error + string list" where
  "explain_hour hour =
     (if hour = ''*'' then Inr []
      else if CHR ''/'' \<in> set hour then
        (if startswith hour ''*/'' then Inr [''every '' @ drop 2 hour @ '' hours'']
         else
           (case split_on CHR ''/'' hour of
              a # n # _ \<Rightarrow> Inr [''every '' @ n @ '' hours starting at hour '' @ a]
            | _ \<Rightarrow> Inl (IndexError ''list index out of range'')))
      else if CHR '','' \<in> set hour then Inr [''at hours '' @ hour]
      else if CHR ''-'' \<in> set hour then
        (case unpack2 (split_on CHR ''-'' hour) of
           Inl e \<Rightarrow> Inl e
         | Inr (start, end) \<Rightarrow> Inr [''from hour '' @ start @ '' to '' @ end])
      else Inr [''at '' @ hour @ '':XX''])"

definition explain_day :: "string \<Rightarrow> error + string list" where
  "explain_day day =
     (if day = ''*'' then Inr []
      else if CHR ''/'' \<in> set day then
        (case split_on CHR ''/'' day of
           a # n # _ \<Rightarrow> Inr [''every '' @ n @ '' days'']
         | _ \<Rightarrow> Inl (IndexError ''list index out of range''))
      else if CHR '','' \<in> set day then Inr [''on days '' @ day]
      else if CHR ''-'' \<in> set day then
        (case unpack2 (split_on CHR ''-'' day) of
           Inl e \<Rightarrow> Inl e
         | Inr (start, end) \<Rightarrow> Inr [''from day '' @ start @ '' to '' @ end])
      else Inr [''on day '' @ day])"

definition months :: "string list" where
  "months = [''Jan'', ''Feb'', ''Mar'', ''Apr'', ''May'', ''Jun'',
             ''Jul'', ''Aug'', ''Sep'', ''Oct'', ''Nov'', ''Dec'']"

definition days :: "string list" where
  "days = [''Sunday'', ''Monday'', ''Tuesday'', ''Wednesday'', ''Thursday'',
           ''Friday'', ''Saturday'']"

text \<open>
  The list comprehension
  \<^verbatim>\<open>[names[int(m)-off] for m in xs if m.isdigit() and lo <= int(m) <= hi]\<close>,
  with \<open>off = 1\<close> for the months and \<open>off = 0\<close> for the weekdays. The guard keeps the
  index inside \<open>names\<close>.
\<close>

fun pick_names :: "string list \<Rightarrow> int \<Rightarrow> int \<Rightarrow> int \<Rightarrow> string list \<Rightarrow> error + string list" where
  "pick_names names off lo hi [] = Inr []"
| "pick_names names off lo hi (m # ms) =
     (if isdigit m then
        (case int_or_raise m of
           Inl e \<Rightarrow> Inl e
         | Inr n \<Rightarrow>
             if lo \<le> n \<and> n \<le> hi then
               (case pick_names names off lo hi ms of
                  Inl e \<Rightarrow> Inl e
                | Inr r \<Rightarrow> Inr (names ! nat (n - off) # r))
             else pick_names names off lo hi ms)
      else pick_names names off lo hi ms)"

definition explain_month :: "string \<Rightarrow> error + string list" where
  "explain_month month =
     (if month = ''*'' then Inr []
      else if isdigit month then
        (case int_or_raise month of
           Inl e \<Rightarrow> Inl e
         | Inr n \<Rightarrow>
             if 1 \<le> n \<and> n \<le> 12 then Inr [''in '' @ months ! nat (n - 1)]
             else if CHR '','' \<in> set month then
               (case pick_names months 1 1 12 (split_on CHR '','' month) of
                  Inl e \<Rightarrow> Inl e
                | Inr month_names \<Rightarrow> Inr [''in '' @ py_join '', '' month_names])
             else Inr [])
      else if CHR '','' \<in> set month then
        (case pick_names months 1 1 12 (split_on CHR '','' month) of
           Inl e \<Rightarrow> Inl e
         | Inr month_names \<Rightarrow> Inr [''in '' @ py_join '', '' month_names])
      else Inr [])"

definition explain_weekday :: "string \<Rightarrow> error + string list" where
  "explain_weekday weekday =
     (if weekday = ''*'' then Inr []
      else if isdigit weekday then
        (case int_or_raise weekday of
           Inl e \<Rightarrow> Inl e
         | Inr n \<Rightarrow>
             if 0 \<le> n \<and> n \<le> 6 then Inr [''on '' @ days ! nat n]
             else if CHR '','' \<in> set weekday then
               (case pick_names days 0 0 6 (split_on CHR '','' weekday) of
                  Inl e \<Rightarrow> Inl e
                | Inr day_names \<Rightarrow> Inr [''on '' @ py_join '', '' day_names])
             else Inr [])
      else if CHR '','' \<in> set weekday then
        (case pick_names days 0 0 6 (split_on CHR '','' weekday) of
           Inl e \<Rightarrow> Inl e
         | Inr day_names \<Rightarrow> Inr [''on '' @ py_join '', '' day_names])
      else Inr [])"

text \<open>The five blocks in order; the first exception ends the sequence.\<close>

definition explanation_parts ::
  "string \<Rightarrow> string \<Rightarrow> string \<Rightarrow> string \<Rightarrow> string \<Rightarrow> error + string list" where
  "explanation_parts minute hour day month weekday =
     (case explain_minute minute of Inl e \<Rightarrow> Inl e | Inr p1 \<Rightarrow>
     (case explain_hour hour of Inl e \<Rightarrow> Inl e | Inr p2 \<Rightarrow>
     (case explain_day day of Inl e \<Rightarrow> Inl e | Inr p3 \<Rightarrow>
     (case explain_month month of Inl e \<Rightarrow> Inl e | Inr p4 \<Rightarrow>
     (case explain_weekday weekday of Inl e \<Rightarrow> Inl e | Inr p5 \<Rightarrow>
        Inr (p1 @ p2 @ p3 @ p4 @ p5))))))"

text \<open>The \<^verbatim>\<open>breakdown\<close> dictionary of the result, in the order of its literal.\<close>

definition breakdown_of ::
  "string \<Rightarrow> string \<Rightarrow> string \<Rightarrow> string \<Rightarrow> string \<Rightarrow> error + (string \<times> string) list" where
  "breakdown_of minute hour day month weekday =
     (case explain_field minute ''minute'' 0 59 of Inl e \<Rightarrow> Inl e | Inr b1 \<Rightarrow>
     (case explain_field hour ''hour'' 0 23 of Inl e \<Rightarrow> Inl e | Inr b2 \<Rightarrow>
     (case explain_field day ''day of month'' 1 31 of Inl e \<Rightarrow> Inl e | Inr b3 \<Rightarrow>
     (case explain_field month ''month'' 1 12 of Inl e \<Rightarrow> Inl e | Inr b4 \<Rightarrow>
     (case explain_field weekday ''day of week'' 0 6 of Inl e \<Rightarrow> Inl e | Inr b5 \<Rightarrow>
        Inr [(''minute'', b1), (''hour'', b2), (''day'', b3), (''month'', b4),
             (''weekday'', b5)])))))"

subsection \<open>parse_cron\<close>

text \<open>The body of the \<^verbatim>\<open>try\<close>: \<open>Inl\<close> is an exception raised inside it.\<close>

definition parse_cron_body :: "datetime \<Rightarrow> string \<Rightarrow> error + parse_result" where
  "parse_cron_body now expression =
     (let parts = py_split (py_strip expression) in
      if length parts \<noteq> 5 then
        Inr \<lparr>valid = False,
             description = ''Invalid cron expression - must have 5 parts'',
             next_runs = [],
             explanation = ''Cron format: minute hour day month weekday'',
             breakdown = None\<rparr>
      else
        (case parts of
           [minute, hour, day, month, weekday] \<Rightarrow>
             (case explanation_parts minute hour day month weekday of
                Inl e \<Rightarrow> Inl e
              | Inr eparts \<Rightarrow>
                  (let description =
                         (case get_common_patterns expression of
                            Some d \<Rightarrow> d
                          | None \<Rightarrow> capitalize (py_join '' '' eparts))
                   in case calculate_next_runs now parts 5 of
                        Inl e \<Rightarrow> Inl e
                      | Inr runs \<Rightarrow>
                          (case breakdown_of minute hour day month weekday of
                             Inl e \<Rightarrow> Inl e
                           | Inr bd \<Rightarrow>
                               Inr \<lparr>valid = True,
                                    description = description,
                                    next_runs = runs,
                                    explanation = capitalize (py_join '' '' eparts),
                                    breakdown = Some bd\<rparr>)))
         | _ \<Rightarrow> Inl (unpack5_error parts)))"

text \<open>\<^verbatim>\<open>parse_cron(expression)\<close>, with the handler of the \<^verbatim>\<open>try\<close>.\<close>

definition parse_cron :: "datetime \<Rightarrow> string \<Rightarrow> parse_result" where
  "parse_cron now expression =
     (case parse_cron_body now expression of
        Inl e \<Rightarrow>
          \<lparr>valid = False,
           description = ''Error parsing cron expression'',
           next_runs = [],
           explanation = str_of e,
           breakdown = None\<rparr>
      | Inr r \<Rightarrow> r)"

section \<open>The schedule table (class CronMonitorServer)\<close>

text \<open>
  The world outside the process: the installed table, character by character as
  \<^verbatim>\<open>crontab -l\<close> writes it (\<open>None\<close> when the command exits with a non-zero
  status, as it does for a user without a table), and the temporary files by name. Two things are decided outside
  and are parameters of the operations: \<open>ok\<close>, whether \<^verbatim>\<open>crontab <file>\<close> accepts
  a text (it installs the text exactly when it accepts it), and \<open>tmp\<close>, the name
  that \<^verbatim>\<open>NamedTemporaryFile\<close> chooses.
\<close>

record world =
  crontab :: "string option"
  files :: "string \<rightharpoonup> string"

text \<open>
  One entry of \<^verbatim>\<open>get_cron_jobs\<close>. The keys \<^verbatim>\<open>description\<close> and
  \<^verbatim>\<open>next_runs\<close> of the source are the fields \<open>job_description\<close> and
  \<open>job_next_runs\<close>.
\<close>

record job =
  index :: nat
  schedule :: string
  command :: string
  comment :: string
  full_line :: string
  job_description :: string
  job_next_runs :: "stamp list"

definition newline :: char where
  "newline = CHR 0x0A"

definition carriage_return :: char where
  "carriage_return = CHR 0x0D"

text \<open>
  The output of \<^verbatim>\<open>crontab -l\<close> is read with \<^verbatim>\<open>text=True\<close>, which
  translates the line ends: a carriage return followed by a newline becomes one
  newline, and any other carriage return becomes a newline.
\<close>

fun universal_newlines :: "string \<Rightarrow> string" where
  "universal_newlines [] = []"
| "universal_newlines [c] = (if c = carriage_return then [newline] else [c])"
| "universal_newlines (c # d # cs) =
     (if c = carriage_return then
        (if d = newline then newline # universal_newlines cs
         else newline # universal_newlines (d # cs))
      else c # universal_newlines (d # cs))"

text \<open>
  \<^verbatim>\<open>subprocess.run(['crontab', '-l'], capture_output=True, text=True, check=True).stdout\<close>;
  \<open>None\<close> is the CalledProcessError.
\<close>

definition crontab_l :: "world \<Rightarrow> string option" where
  "crontab_l w = map_option universal_newlines (crontab w)"

subsection \<open>get_cron_jobs\<close>

text \<open>
  The body of the loop over the lines, on the loop's variables
  \<open>(comment, job_index, jobs)\<close>.
\<close>

definition jobs_step ::
  "datetime \<Rightarrow> string \<times> nat \<times> job list \<Rightarrow> string \<Rightarrow> string \<times> nat \<times> job list" where
  "jobs_step now st raw = (case st of (cmt, job_index, jobs) \<Rightarrow>
     (let line = py_strip raw in
      if line = [] then ([], job_index, jobs)
      else if startswith line ''#'' then (py_strip (drop 1 line), job_index, jobs)
      else if line \<noteq> [] \<and> \<not> startswith line ''#'' then
        (let parts = py_split line in
         if 5 \<le> length parts then
           (let sched = py_join '' '' (take 5 parts);
                cmd = py_join '' '' (drop 5 parts);
                preview = parse_cron now sched
            in ([], job_index + 1,
                jobs @ [\<lparr>index = job_index,
                          schedule = sched,
                          command = cmd,
                          comment = (if cmt = [] then ''Custom cron job'' else cmt),
                          full_line = line,
                          job_description = description preview,
                          job_next_runs = take 3 (next_runs preview)\<rparr>]))
         else ([], job_index, jobs))
      else (cmt, job_index, jobs)))"

definition scan_jobs :: "datetime \<Rightarrow> string list \<Rightarrow> string \<times> nat \<times> job list" where
  "scan_jobs now ls = foldl (jobs_step now) ([], 0, []) ls"

definition get_cron_jobs :: "datetime \<Rightarrow> world \<Rightarrow> job list" where
  "get_cron_jobs now w = (case crontab_l w of
       None \<Rightarrow> []
     | Some out \<Rightarrow> snd (snd (scan_jobs now (split_on newline out))))"

subsection \<open>add_cron_job\<close>

text \<open>
  The result is the boolean returned and the world afterwards. The temporary file is
  written in text mode, which on the systems that have the table command writes every
  character as it is. A failed install raises after the temporary file was written and
  before \<^verbatim>\<open>os.unlink\<close>; the handler returns False and does nothing else.
\<close>

definition add_cron_job ::
  "(string \<Rightarrow> bool) \<Rightarrow> string \<Rightarrow> string \<Rightarrow> string \<Rightarrow> string \<Rightarrow> world \<Rightarrow> bool \<times> world" where
  "add_cron_job ok tmp sched cmd cmt w =
     (let current_jobs = (case crontab_l w of
                            None \<Rightarrow> []
                          | Some out \<Rightarrow> split_on newline (py_strip out));
          current_jobs = (if cmt \<noteq> [] then current_jobs @ [''#'' @ cmt] else current_jobs);
          current_jobs = current_jobs @ [sched @ '' '' @ cmd];
          staged = py_join [newline] current_jobs @ [newline];
          w1 = w\<lparr>files := (files w)(tmp \<mapsto> staged)\<rparr>
      in if ok staged
         then (True, w1\<lparr>crontab := Some staged, files := (files w1)(tmp := None)\<rparr>)
         else (False, w1))"

subsection \<open>delete_cron_job\<close>

text \<open>
  The loop over \<^verbatim>\<open>enumerate(lines)\<close>, on the loop's variables
  \<open>(current_job_index, filtered_lines)\<close>.
\<close>

fun delete_loop ::
  "string list \<Rightarrow> int \<Rightarrow> (nat \<times> string) list \<Rightarrow> int \<Rightarrow> string list \<Rightarrow> string list" where
  "delete_loop lines job_index [] cur filtered = filtered"
| "delete_loop lines job_index ((i, line) # rest) cur filtered =
     (if py_strip line \<noteq> [] \<and> \<not> startswith line ''#'' then
        (if cur = job_index then
           delete_loop lines job_index rest (cur + 1)
             (if 0 < i \<and> startswith (py_strip (lines ! (i - 1))) ''#''
              then butlast filtered else filtered)
         else delete_loop lines job_index rest (cur + 1) (filtered @ [line]))
      else delete_loop lines job_index rest cur (filtered @ [line]))"

definition delete_cron_job ::
  "(string \<Rightarrow> bool) \<Rightarrow> string \<Rightarrow> int \<Rightarrow> world \<Rightarrow> bool \<times> world" where
  "delete_cron_job ok tmp job_index w = (case crontab_l w of
       None \<Rightarrow> (False, w)
     | Some out \<Rightarrow>
         (let lines = split_on newline (py_strip out);
              filtered_lines = delete_loop lines job_index (enumerate 0 lines) 0 [];
              staged = py_join [newline] filtered_lines @ [newline];
              w1 = w\<lparr>files := (files w)(tmp \<mapsto> staged)\<rparr>
          in if ok staged
             then (True, w1\<lparr>crontab := Some staged, files := (files w1)(tmp := None)\<rparr>)
             else (False, w1)))"

section \<open>Notions used to state the properties\<close>

text \<open>
  The lines that the loop of \<^verbatim>\<open>delete_cron_job\<close> counts (its test
  \<^verbatim>\<open>line.strip() and not line.startswith('#')\<close>), and their number in an
  installed table as the operation reads it: the indices below that number are the
  ones the loop reaches.
\<close>

definition job_line :: "string \<Rightarrow> bool" where
  "job_line line = (py_strip line \<noteq> [] \<and> \<not> startswith line ''#'')"

definition delete_count :: "string \<Rightarrow> nat" where
  "delete_count out =
     length (filter job_line (split_on newline (py_strip (universal_newlines out))))"

text \<open>
  Sample tables: one entry; an environment setting followed by one entry; the same
  shape with lines that end in a carriage return and a newline.
\<close>

definition table0 :: string where
  "table0 = ''0 2 * * * /bin/backup.sh'' @ [newline]"

definition world0 :: world where
  "world0 = \<lparr>crontab = Some table0, files = Map.empty\<rparr>"

definition table1 :: string where
  "table1 = ''MAILTO=root'' @ [newline] @ ''0 2 * * * /bin/backup.sh'' @ [newline]"

definition world1 :: world where
  "world1 = \<lparr>crontab = Some table1, files = Map.empty\<rparr>"

definition table2 :: string where
  "table2 = ''A=1'' @ [carriage_return, newline] @ ''0 2 * * * /a'' @ [carriage_return, newline]"

definition world2 :: world where
  "world2 = \<lparr>crontab = Some table2, files = Map.empty\<rparr>"

text \<open>A text without a line end of either kind.\<close>

definition one_line :: "string \<Rightarrow> bool" where
  "one_line s = (newline \<notin> set s \<and> carriage_return \<notin> set s)"

text \<open>
  The phrase and the breakdown string that the specification gives for a step
  \<^verbatim>\<open>a/n\<close> of the field \<open>field_name\<close>.
\<close>

definition step_phrase :: "string \<Rightarrow> string \<Rightarrow> string \<Rightarrow> string" where
  "step_phrase n field_name a =
     ''every '' @ n @ '' '' @ field_name @ ''s starting at '' @ field_name @ '' '' @ a"

definition step_breakdown :: "string \<Rightarrow> string \<Rightarrow> string \<Rightarrow> string" where
  "step_breakdown n field_name a =
     ''Every '' @ n @ '' '' @ field_name @ ''s starting from '' @ a"

text \<open>
  The expressions that take the second branch of the projector with a step that is not
  positive: minute \<^verbatim>\<open>*/n\<close> with \<^verbatim>\<open>int(n) <= 0\<close> and hour \<^verbatim>\<open>*\<close>.
\<close>

definition nonpositive_step :: "string list \<Rightarrow> bool" where
  "nonpositive_step parts = (case parts of
       [minute, hour, day, month, weekday] \<Rightarrow>
         startswith minute ''*/'' \<and> hour = ''*'' \<and>
         (case py_int (drop 2 minute) of None \<Rightarrow> False | Some n \<Rightarrow> n \<le> 0)
     | _ \<Rightarrow> False)"




text \<open>
  The entry that \<^verbatim>\<open>get_cron_jobs\<close> builds, at the clock value \<open>now\<close> and
  with index \<open>n\<close>, from the two lines that \<^verbatim>\<open>add_cron_job\<close> appends for a
  schedule, a command and a comment: the tokens of the schedule and of the command
  joined by single blanks, and the comment trimmed (the default label when nothing is
  left of it).
\<close>

definition added_job :: "datetime \<Rightarrow> nat \<Rightarrow> string \<Rightarrow> string \<Rightarrow> string \<Rightarrow> job" where
  "added_job now n sched cmd cmt =
     \<lparr>index = n,
      schedule = py_join '' '' (py_split sched),
      command = py_join '' '' (py_split cmd),
      comment = (if py_strip cmt = [] then ''Custom cron job'' else py_strip cmt),
      full_line = py_strip (sched @ '' '' @ cmd),
      job_description = description (parse_cron now (py_join '' '' (py_split sched))),
      job_next_runs = take 3 (next_runs (parse_cron now (py_join '' '' (py_split sched))))\<rparr>"

section \<open>Properties\<close>

subsection \<open>Splitting and trimming\<close>

lemma split_ws_lstrip: "split_ws (dropWhile isspace s) [] = split_ws s []"
  by (induction s) auto

lemma split_ws_snoc_space: "isspace c \<Longrightarrow> split_ws (s @ [c]) cur = split_ws s cur"
  by (induction s arbitrary: cur) auto

lemma split_ws_append_spaces: "list_all isspace ws \<Longrightarrow> split_ws (s @ ws) cur = split_ws s cur"
proof (induction ws rule: rev_induct)
  case Nil
  then show ?case by simp
next
  case (snoc c ws)
  then have "split_ws ((s @ ws) @ [c]) cur = split_ws (s @ ws) cur"
    by (intro split_ws_snoc_space) simp
  with snoc show ?case by simp
qed

lemma rstrip_decomp: "\<exists>ws. list_all isspace ws \<and> s = py_rstrip s @ ws"
proof -
  have "rev s = takeWhile isspace (rev s) @ dropWhile isspace (rev s)" by simp
  then have "s = rev (dropWhile isspace (rev s)) @ rev (takeWhile isspace (rev s))"
    by (metis rev_append rev_rev_ident)
  moreover have "list_all isspace (rev (takeWhile isspace (rev s)))"
    by (simp add: list_all_iff) (meson set_takeWhileD)
  ultimately show ?thesis unfolding py_rstrip_def by blast
qed

lemma split_ws_rstrip: "split_ws (py_rstrip s) cur = split_ws s cur"
proof -
  obtain ws where ws: "list_all isspace ws" "s = py_rstrip s @ ws"
    using rstrip_decomp by blast
  then have "split_ws s cur = split_ws (py_rstrip s @ ws) cur" by simp
  also have "\<dots> = split_ws (py_rstrip s) cur"
    using ws(1) by (rule split_ws_append_spaces)
  finally show ?thesis by simp
qed

lemma py_split_strip: "py_split (py_strip s) = py_split s"
  by (simp add: py_split_def py_strip_def py_lstrip_def split_ws_rstrip split_ws_lstrip)

subsection \<open>The interpreter's result\<close>

text \<open>
  C5. An expression whose split on blanks does not give exactly five tokens is answered
  with \<open>valid = False\<close>, the fixed description (and the fixed explanation), and no
  next runs.
\<close>

theorem parse_cron_wrong_token_count:
  "length (py_split expression) \<noteq> 5 \<Longrightarrow>
   parse_cron now expression =
     \<lparr>valid = False,
      description = ''Invalid cron expression - must have 5 parts'',
      next_runs = [],
      explanation = ''Cron format: minute hour day month weekday'',
      breakdown = None\<rparr>"
  by (simp add: parse_cron_def parse_cron_body_def py_split_strip)

theorem parse_cron_wrong_token_count_witness:
  "length (py_split ''* * * *'') \<noteq> 5 \<and>
   parse_cron 0 ''* * * *'' =
     \<lparr>valid = False,
      description = ''Invalid cron expression - must have 5 parts'',
      next_runs = [],
      explanation = ''Cron format: minute hour day month weekday'',
      breakdown = None\<rparr>"
proof -
  have h: "length (py_split ''* * * *'') \<noteq> 5" by code_simp
  show ?thesis using h parse_cron_wrong_token_count [OF h, of 0] by simp
qed

lemma parse_cron_body_invalid:
  "parse_cron_body now e = Inr r \<Longrightarrow> \<not> valid r \<Longrightarrow> next_runs r = [] \<and> breakdown r = None"
  by (auto simp: parse_cron_body_def Let_def split: if_splits list.splits sum.splits)

text \<open>
  C6. A result with \<open>valid = False\<close> has no next runs and no breakdown, whichever of
  the two failure results it is.
\<close>

theorem parse_cron_invalid_shape:
  "\<not> valid (parse_cron now expression) \<Longrightarrow>
   next_runs (parse_cron now expression) = [] \<and> breakdown (parse_cron now expression) = None"
  by (cases "parse_cron_body now expression")
     (auto simp: parse_cron_def dest: parse_cron_body_invalid)

theorem parse_cron_invalid_shape_witness:
  "\<not> valid (parse_cron 0 ''1-2-3 * * * *'') \<and>
   next_runs (parse_cron 0 ''1-2-3 * * * *'') = [] \<and>
   breakdown (parse_cron 0 ''1-2-3 * * * *'') = None"
proof -
  have h: "\<not> valid (parse_cron 0 ''1-2-3 * * * *'')" by code_simp
  show ?thesis using h parse_cron_invalid_shape [OF h] by simp
qed

text \<open>
  C10. The expression \<^verbatim>\<open>*/x * * * *\<close> has five tokens and is answered with
  \<open>valid = True\<close> and no next runs, at every time of day: the conversion of the step
  fails inside the projector, which returns the empty list, and nothing else fails.
\<close>

theorem parse_cron_valid_without_runs:
  "length (py_split ''*/x * * * *'') = 5 \<and>
   valid (parse_cron now ''*/x * * * *'') \<and> next_runs (parse_cron now ''*/x * * * *'') = []"
  by code_simp

subsection \<open>Deleting\<close>

lemma delete_loop_no_match:
  "job_index < cur \<or> cur + int (length (filter job_line (map snd rest))) \<le> job_index \<Longrightarrow>
   delete_loop lines job_index rest cur filtered = filtered @ map snd rest"
proof (induction rest arbitrary: cur filtered)
  case Nil
  then show ?case by simp
next
  case (Cons p rest)
  obtain i line where p: "p = (i, line)" by (cases p)
  show ?case
  proof (cases "job_line line")
    case True
    with Cons.prems p have ne: "cur \<noteq> job_index" by auto
    from Cons.prems p True
    have "job_index < cur + 1 \<or> (cur + 1) + int (length (filter job_line (map snd rest))) \<le> job_index"
      by auto
    from Cons.IH [OF this] ne True p show ?thesis by (simp add: job_line_def)
  next
    case False
    with Cons.prems p
    have "job_index < cur \<or> cur + int (length (filter job_line (map snd rest))) \<le> job_index"
      by auto
    from Cons.IH [OF this] False p show ?thesis by (auto simp add: job_line_def)
  qed
qed

lemma split_on_not_Nil: "split_on sep s \<noteq> []"
  by (induction s) (auto split: list.splits)

lemma py_join_Cons_Cons: "ls \<noteq> [] \<Longrightarrow> py_join sep ((c # l) # ls) = c # py_join sep (l # ls)"
  by (cases ls) auto

lemma py_join_Nil_Cons: "ls \<noteq> [] \<Longrightarrow> py_join sep ([] # ls) = sep @ py_join sep ls"
  by (cases ls) auto

lemma join_split_on: "py_join [sep] (split_on sep s) = s"
proof (induction s)
  case Nil
  then show ?case by simp
next
  case (Cons c s)
  obtain l ls where sp: "split_on sep s = l # ls"
    using split_on_not_Nil [of sep s] by (cases "split_on sep s") auto
  show ?case
  proof (cases "c = sep")
    case True
    with Cons sp show ?thesis by simp
  next
    case False
    with Cons sp show ?thesis by (cases ls) auto
  qed
qed

lemma delete_no_match_result:
  assumes "crontab w = Some raw"
      and "job_index < 0 \<or> int (delete_count raw) \<le> job_index"
  shows "fst (delete_cron_job ok tmp job_index w) =
           ok (py_strip (universal_newlines raw) @ [newline]) \<and>
         crontab (snd (delete_cron_job ok tmp job_index w)) =
           (if ok (py_strip (universal_newlines raw) @ [newline])
            then Some (py_strip (universal_newlines raw) @ [newline]) else Some raw)"
proof -
  let ?out = "universal_newlines raw"
  let ?lines = "split_on newline (py_strip ?out)"
  have "job_index < 0 \<or> 0 + int (length (filter job_line (map snd (enumerate 0 ?lines)))) \<le> job_index"
    using assms(2) by (simp add: delete_count_def)
  then have "delete_loop ?lines job_index (enumerate 0 ?lines) 0 [] = [] @ map snd (enumerate 0 ?lines)"
    by (rule delete_loop_no_match)
  then have "py_join [newline] (delete_loop ?lines job_index (enumerate 0 ?lines) 0 []) = py_strip ?out"
    by (simp add: join_split_on)
  then show ?thesis
    using assms(1) by (simp add: delete_cron_job_def crontab_l_def Let_def)
qed

text \<open>
  C2 at a table with a line of fewer than five tokens. The list gives index 0 to the
  entry \<^verbatim>\<open>0 2 * * * /bin/backup.sh\<close>; deleting index 0 drops the line
  \<^verbatim>\<open>MAILTO=root\<close> and keeps that entry.
\<close>

theorem delete_drops_other_line:
  "map index (get_cron_jobs now world1) = [0] \<and>
   map full_line (get_cron_jobs now world1) = [''0 2 * * * /bin/backup.sh''] \<and>
   fst (delete_cron_job (\<lambda>_. True) ''/tmp/tmpk3.cron'' 0 world1) = True \<and>
   crontab (snd (delete_cron_job (\<lambda>_. True) ''/tmp/tmpk3.cron'' 0 world1)) =
     Some (''0 2 * * * /bin/backup.sh'' @ [newline])"
  by code_simp

text \<open>
  C4 at a failing install. After \<^verbatim>\<open>add_cron_job\<close> and after
  \<^verbatim>\<open>delete_cron_job\<close> return False because the install step failed, the
  temporary file is still there with the staged text.
\<close>

theorem failed_install_keeps_temporary_file:
  "fst (add_cron_job (\<lambda>_. False) ''/tmp/tmpk3.cron'' ''61 * * * *'' ''/bin/x'' ''nightly'' world0) = False \<and>
   files (snd (add_cron_job (\<lambda>_. False) ''/tmp/tmpk3.cron'' ''61 * * * *'' ''/bin/x'' ''nightly'' world0))
     ''/tmp/tmpk3.cron'' =
     Some (''0 2 * * * /bin/backup.sh'' @ [newline] @ ''#nightly'' @ [newline] @ ''61 * * * * /bin/x'' @ [newline]) \<and>
   fst (delete_cron_job (\<lambda>_. False) ''/tmp/tmpk3.cron'' 0 world0) = False \<and>
   files (snd (delete_cron_job (\<lambda>_. False) ''/tmp/tmpk3.cron'' 0 world0)) ''/tmp/tmpk3.cron'' =
     Some [newline]"
  by code_simp

subsection \<open>Step fields\<close>

lemma split_on_no_sep: "sep \<notin> set s \<Longrightarrow> split_on sep s = [s]"
  by (induction s) auto

lemma split_on_append_sep:
  "sep \<notin> set a \<Longrightarrow> split_on sep (a @ sep # b) = a # split_on sep b"
  by (induction a) auto

lemma step_split:
  "CHR ''/'' \<notin> set a \<Longrightarrow> CHR ''/'' \<notin> set n \<Longrightarrow>
   split_on CHR ''/'' (a @ ''/'' @ n) = [a, n]"
  by (simp add: split_on_append_sep split_on_no_sep)

lemma step_not_wildcard_prefix:
  "CHR ''/'' \<notin> set a \<Longrightarrow> a \<noteq> ''*'' \<Longrightarrow> \<not> startswith (a @ ''/'' @ n) ''*/''"
proof (cases a)
  case Nil
  then show ?thesis by (simp add: startswith_def)
next
  case (Cons c cs)
  assume "CHR ''/'' \<notin> set a" "a \<noteq> ''*''"
  with Cons show ?thesis by (cases cs) (auto simp: startswith_def)
qed

lemma step_not_star: "a @ ''/'' @ n \<noteq> ''*''"
  by (cases a) auto

lemma step_not_isdigit: "\<not> isdigit (a @ ''/'' @ n)"
  by (simp add: isdigit_def isdigit_char_def)

text \<open>
  C8 (as the code has it). For a step \<^verbatim>\<open>a/n\<close> whose base is not the wildcard:
  the minute and the hour field contribute the phrase of the specification; the
  day-of-month field contributes \<^verbatim>\<open>every n days\<close>; the month and the weekday
  field contribute nothing (when the field has no comma); and \<^verbatim>\<open>explain_field\<close>
  gives the breakdown string of the specification under every field name.
\<close>

theorem step_field_phrases:
  assumes "CHR ''/'' \<notin> set a" and "CHR ''/'' \<notin> set n" and "a \<noteq> ''*''"
  shows "explain_minute (a @ ''/'' @ n) = Inr [step_phrase n ''minute'' a] \<and>
         explain_hour (a @ ''/'' @ n) = Inr [step_phrase n ''hour'' a] \<and>
         explain_day (a @ ''/'' @ n) = Inr [''every '' @ n @ '' days''] \<and>
         (CHR '','' \<notin> set (a @ ''/'' @ n) \<longrightarrow>
            explain_month (a @ ''/'' @ n) = Inr [] \<and> explain_weekday (a @ ''/'' @ n) = Inr []) \<and>
         explain_field (a @ ''/'' @ n) field_name lo hi = Inr (step_breakdown n field_name a)"
proof -
  note facts = step_split [OF assms(1,2)] step_not_wildcard_prefix [OF assms(1,3)]
    step_not_star [of a n] step_not_isdigit [of a n]
  have 1: "explain_minute (a @ ''/'' @ n) = Inr [step_phrase n ''minute'' a]"
    using facts by (simp add: explain_minute_def step_phrase_def)
  have 2: "explain_hour (a @ ''/'' @ n) = Inr [step_phrase n ''hour'' a]"
    using facts by (simp add: explain_hour_def step_phrase_def)
  have 3: "explain_day (a @ ''/'' @ n) = Inr [''every '' @ n @ '' days'']"
    using facts by (simp add: explain_day_def)
  have 4: "CHR '','' \<notin> set (a @ ''/'' @ n) \<longrightarrow>
           explain_month (a @ ''/'' @ n) = Inr [] \<and> explain_weekday (a @ ''/'' @ n) = Inr []"
    using facts by (simp add: explain_month_def explain_weekday_def)
  have 5: "explain_field (a @ ''/'' @ n) field_name lo hi = Inr (step_breakdown n field_name a)"
    using facts by (simp add: explain_field_def step_breakdown_def)
  from 1 2 3 4 5 show ?thesis by blast
qed

theorem step_field_phrases_witness:
  "explain_minute ''5/10'' = Inr [''every 10 minutes starting at minute 5''] \<and>
   explain_hour ''5/10'' = Inr [''every 10 hours starting at hour 5''] \<and>
   explain_day ''5/10'' = Inr [''every 10 days''] \<and>
   explain_month ''5/10'' = Inr [] \<and> explain_weekday ''5/10'' = Inr [] \<and>
   explain_field ''5/10'' ''day of month'' 1 31 = Inr ''Every 10 day of months starting from 5''"
proof -
  have h1: "CHR ''/'' \<notin> set ''5''" by simp
  have h2: "CHR ''/'' \<notin> set ''10''" by simp
  have h3: "''5'' \<noteq> ''*''" by simp
  have h4: "CHR '','' \<notin> set (''5'' @ ''/'' @ ''10'')" by simp
  show ?thesis
    using step_field_phrases [OF h1 h2 h3, of "''day of month''" 1 31] h4
    by (simp add: step_phrase_def step_breakdown_def)
qed

text \<open>
  C8 as stated fails for the day-of-month, month and weekday fields: at \<^verbatim>\<open>1/2\<close>
  the day phrase names neither the base nor the field, and the other two fields give
  no phrase.
\<close>

theorem step_phrase_of_day_month_weekday:
  "explain_day ''1/2'' = Inr [''every 2 days''] \<and>
   explain_day ''1/2'' \<noteq> Inr [step_phrase ''2'' ''day'' ''1''] \<and>
   explain_day ''1/2'' \<noteq> Inr [step_phrase ''2'' ''day of month'' ''1''] \<and>
   explain_month ''1/2'' = Inr [] \<and>
   explain_weekday ''1/2'' = Inr []"
  by code_simp

subsection \<open>The projector's timestamps\<close>

lemma strftime_strict: "a + US_MIN \<le> b \<Longrightarrow> strftime a < strftime b"
proof -
  assume "a + US_MIN \<le> b"
  then have "(a + US_MIN) div US_MIN \<le> b div US_MIN"
    by (intro zdiv_mono1) (simp_all add: US_MIN_def)
  moreover have "(a + US_MIN) div US_MIN = a div US_MIN + 1"
    by (simp add: US_MIN_def)
  ultimately show ?thesis by (simp add: strftime_def)
qed

lemma strftime_mono: "a \<le> b \<Longrightarrow> strftime a \<le> strftime b"
  unfolding strftime_def by (intro zdiv_mono1) (simp_all add: US_MIN_def)

lemma dt_add_Some: "dt_add t us = Some t' \<Longrightarrow> t' = t + us"
  by (simp add: dt_add_def split: if_splits)

lemma offset_loop_sorted:
  "US_MIN \<le> step \<Longrightarrow> sorted_wrt (<) acc \<Longrightarrow> sorted_wrt (<) is \<Longrightarrow>
   (\<forall>x\<in>set acc. \<forall>i\<in>set is. x < strftime (now + step * (int i + 1))) \<Longrightarrow>
   sorted_wrt (<) (offset_loop now step is acc)"
proof (induction "is" arbitrary: acc)
  case Nil
  then show ?case by simp
next
  case (Cons i "is")
  show ?case
  proof (cases "dt_add now (step * (int i + 1))")
    case None
    with Cons.prems show ?thesis by simp
  next
    case (Some t)
    then have t: "t = now + step * (int i + 1)" by (rule dt_add_Some)
    have s1: "sorted_wrt (<) (acc @ [strftime t])"
      using Cons.prems t by (auto simp: sorted_wrt_append)
    have s2: "sorted_wrt (<) is" using Cons.prems by simp
    have "\<forall>j\<in>set is. strftime t < strftime (now + step * (int j + 1))"
    proof
      fix j assume "j \<in> set is"
      with Cons.prems(3) have "i < j" by auto
      then have "int i + 1 \<le> int j" by simp
      moreover have "0 \<le> step" using Cons.prems(1) by (simp add: US_MIN_def)
      ultimately have "step * (int i + 1 + 1) \<le> step * (int j + 1)"
        by (intro mult_left_mono) simp_all
      then have "step * (int i + 1) + step \<le> step * (int j + 1)"
        by (simp add: algebra_simps)
      then have "t + US_MIN \<le> now + step * (int j + 1)"
        using t Cons.prems(1) by simp
      then show "strftime t < strftime (now + step * (int j + 1))" by (rule strftime_strict)
    qed
    then have s3: "\<forall>x\<in>set (acc @ [strftime t]). \<forall>j\<in>set is. x < strftime (now + step * (int j + 1))"
      using Cons.prems(4) by auto
    from Cons.IH [OF Cons.prems(1) s1 s2 s3] Some show ?thesis by simp
  qed
qed

lemma daily_loop_sorted:
  "sorted_wrt (<) acc \<Longrightarrow> (\<forall>x\<in>set acc. x < strftime nr) \<Longrightarrow>
   sorted_wrt (<) (daily_loop now nr is acc)"
proof (induction "is" arbitrary: nr acc)
  case Nil
  then show ?case by simp
next
  case (Cons i "is")
  show ?case
  proof (cases "if nr \<le> now then dt_add nr US_DAY else Some nr")
    case None
    with Cons.prems show ?thesis by simp
  next
    case (Some nr1)
    then have ge: "nr \<le> nr1"
      by (auto simp: US_DAY_def split: if_splits dest!: dt_add_Some)
    have s1: "sorted_wrt (<) (acc @ [strftime nr1])"
      using Cons.prems strftime_mono [OF ge] by (fastforce simp: sorted_wrt_append)
    show ?thesis
    proof (cases "dt_add nr1 US_DAY")
      case None
      with Some s1 show ?thesis by simp
    next
      case (Some nr2)
      then have "nr2 = nr1 + US_DAY" by (rule dt_add_Some)
      then have "nr1 + US_MIN \<le> nr2" by (simp add: US_DAY_def US_MIN_def)
      then have lt: "strftime nr1 < strftime nr2" by (rule strftime_strict)
      have "\<forall>x\<in>set (acc @ [strftime nr1]). x < strftime nr2"
        using Cons.prems(2) strftime_mono [OF ge] lt by fastforce
      from Cons.IH [OF s1 this] Some \<open>(if nr \<le> now then dt_add nr US_DAY else Some nr) = Some nr1\<close>
      show ?thesis by simp
    qed
  qed
qed

lemma hourly_loop_sorted:
  "sorted_wrt (<) acc \<Longrightarrow> (\<forall>x\<in>set acc. x < strftime nr) \<Longrightarrow>
   sorted_wrt (<) (hourly_loop nr is acc)"
proof (induction "is" arbitrary: nr acc)
  case Nil
  then show ?case by simp
next
  case (Cons i "is")
  have s1: "sorted_wrt (<) (acc @ [strftime nr])"
    using Cons.prems by (auto simp: sorted_wrt_append)
  show ?case
  proof (cases "dt_add nr US_HOUR")
    case None
    with s1 show ?thesis by simp
  next
    case (Some nr2)
    then have "nr2 = nr + US_HOUR" by (rule dt_add_Some)
    then have "nr + US_MIN \<le> nr2" by (simp add: US_HOUR_def US_MIN_def)
    then have lt: "strftime nr < strftime nr2" by (rule strftime_strict)
    have "\<forall>x\<in>set (acc @ [strftime nr]). x < strftime nr2"
      using Cons.prems(2) lt by fastforce
    from Cons.IH [OF s1 this] Some show ?thesis by simp
  qed
qed

lemma offset_loop_sorted0:
  "US_MIN \<le> step \<Longrightarrow> sorted_wrt (<) (offset_loop now step [0..<count] [])"
  by (rule offset_loop_sorted) (simp_all add: sorted_wrt_iff_nth_less)

lemma next_runs_body_sorted:
  assumes "\<not> nonpositive_step [minute, hour, day, month, weekday]"
  shows "sorted_wrt (<) (next_runs_body now [minute, hour, day, month, weekday] minute hour count)"
proof -
  have step: "sorted_wrt (<) (offset_loop now (US_MIN * n) [0..<count] [])"
    if "startswith minute ''*/''" "hour = ''*''" "py_int (drop 2 minute) = Some n" for n
  proof -
    from assms that have "0 < n" by (simp add: nonpositive_step_def)
    then have "US_MIN * 1 \<le> US_MIN * n" by (intro mult_left_mono) (simp_all add: US_MIN_def)
    then show ?thesis by (intro offset_loop_sorted0) simp
  qed
  have hour: "sorted_wrt (<) (offset_loop now US_HOUR [0..<count] [])"
    by (rule offset_loop_sorted0) (simp add: US_MIN_def US_HOUR_def)
  have minute: "sorted_wrt (<) (offset_loop now US_MIN [0..<count] [])"
    by (rule offset_loop_sorted0) simp
  show ?thesis
    unfolding next_runs_body_def
    using step hour minute
    by (auto simp: daily_loop_sorted hourly_loop_sorted split: option.splits)
qed

lemma calculate_next_runs_sorted:
  "\<not> nonpositive_step parts \<Longrightarrow> calculate_next_runs now parts count = Inr runs \<Longrightarrow>
   sorted_wrt (<) runs"
  unfolding calculate_next_runs_def
  by (auto split: list.splits intro!: sorted_wrt_take next_runs_body_sorted)

lemma calculate_next_runs_length:
  "calculate_next_runs now parts count = Inr runs \<Longrightarrow> length runs \<le> count"
  unfolding calculate_next_runs_def by (auto split: list.splits)

lemma parse_cron_body_runs:
  "parse_cron_body now e = Inr r \<Longrightarrow>
   next_runs r = [] \<or> calculate_next_runs now (py_split e) 5 = Inr (next_runs r)"
  by (auto simp: parse_cron_body_def py_split_strip Let_def split: if_splits list.splits sum.splits)

lemma parse_cron_runs:
  "next_runs (parse_cron now e) = [] \<or>
   calculate_next_runs now (py_split e) 5 = Inr (next_runs (parse_cron now e))"
  by (cases "parse_cron_body now e") (auto simp: parse_cron_def dest: parse_cron_body_runs)

text \<open>
  C3 (as the code has it). For every expression and every clock value the next runs
  are at most five; and they are strictly increasing, so in chronological order and
  without duplicates, unless the minute field is a step \<^verbatim>\<open>*/n\<close> with
  \<^verbatim>\<open>int(n) <= 0\<close> under a wildcard hour.
\<close>

theorem next_runs_bounded_and_increasing:
  "length (next_runs (parse_cron now expression)) \<le> 5 \<and>
   (\<not> nonpositive_step (py_split expression) \<longrightarrow>
      sorted_wrt (<) (next_runs (parse_cron now expression)))"
  using parse_cron_runs [of now expression]
  by (auto dest: calculate_next_runs_length calculate_next_runs_sorted)

theorem next_runs_bounded_and_increasing_witness:
  "\<not> nonpositive_step (py_split ''*/15 * * * *'') \<and>
   next_runs (parse_cron 63000000000000000 ''*/15 * * * *'') =
     [1050000015, 1050000030, 1050000045, 1050000060, 1050000075] \<and>
   length (next_runs (parse_cron 63000000000000000 ''*/15 * * * *'')) \<le> 5 \<and>
   sorted_wrt (<) (next_runs (parse_cron 63000000000000000 ''*/15 * * * *''))"
proof -
  have h: "\<not> nonpositive_step (py_split ''*/15 * * * *'')" by code_simp
  have v: "next_runs (parse_cron 63000000000000000 ''*/15 * * * *'') =
     [1050000015, 1050000030, 1050000045, 1050000060, 1050000075]" by code_simp
  show ?thesis
    using next_runs_bounded_and_increasing [of 63000000000000000 "''*/15 * * * *''"] h v by simp
qed

text \<open>
  C3 as stated fails: \<^verbatim>\<open>*/0 * * * *\<close> gives the minute of the clock five times.
\<close>

theorem zero_step_repeats_timestamp:
  "next_runs (parse_cron 63000000000000000 ''*/0 * * * *'') =
     [1050000000, 1050000000, 1050000000, 1050000000, 1050000000] \<and>
   \<not> distinct (next_runs (parse_cron 63000000000000000 ''*/0 * * * *''))"
  by code_simp

subsection \<open>Daily recurrence\<close>









subsection \<open>Line ends\<close>

lemma universal_newlines_no_cr: "carriage_return \<notin> set (universal_newlines s)"
  by (induction s rule: universal_newlines.induct)
     (auto simp: newline_def carriage_return_def)

lemma universal_newlines_id: "carriage_return \<notin> set s \<Longrightarrow> universal_newlines s = s"
  by (induction s rule: universal_newlines.induct) auto

lemma set_strip_subset: "set (py_strip s) \<subseteq> set s"
proof -
  have "set (py_rstrip t) \<subseteq> set t" for t
    unfolding py_rstrip_def using set_dropWhileD [of _ isspace "rev t"] by auto
  moreover have "set (py_lstrip s) \<subseteq> set s"
    unfolding py_lstrip_def using set_dropWhileD [of _ isspace s] by auto
  ultimately show ?thesis unfolding py_strip_def by blast
qed

lemma split_on_lines_subset: "l \<in> set (split_on sep s) \<Longrightarrow> set l \<subseteq> set s"
proof (induction s arbitrary: l)
  case Nil
  then show ?case by simp
next
  case (Cons c s)
  obtain k ks where sp: "split_on sep s = k # ks"
    using split_on_not_Nil [of sep s] by (cases "split_on sep s") auto
  from Cons sp show ?case by (fastforce split: if_splits)
qed

lemma set_py_join: "x \<in> set (py_join sep ls) \<Longrightarrow> x \<in> set sep \<or> (\<exists>l\<in>set ls. x \<in> set l)"
  by (induction sep ls rule: py_join.induct) auto

subsection \<open>Adding, then listing\<close>

lemma split_on_append:
  "split_on sep (a @ sep # b) = split_on sep a @ split_on sep b"
proof (induction a)
  case Nil
  then show ?case by simp
next
  case (Cons c a)
  obtain l ls where "split_on sep a = l # ls"
    using split_on_not_Nil [of sep a] by (cases "split_on sep a") auto
  with Cons show ?case by auto
qed

lemma split_on_snoc_sep: "split_on sep (s @ [sep]) = split_on sep s @ [[]]"
  using split_on_append [of sep s "[]"] by simp

lemma split_on_snoc_other:
  "c \<noteq> sep \<Longrightarrow>
   split_on sep (s @ [c]) = butlast (split_on sep s) @ [last (split_on sep s) @ [c]]"
proof (induction s)
  case Nil
  then show ?case by simp
next
  case (Cons d s)
  obtain l ls where sp: "split_on sep s = l # ls"
    using split_on_not_Nil [of sep s] by (cases "split_on sep s") auto
  obtain l' ls' where sp': "split_on sep (s @ [c]) = l' # ls'"
    using split_on_not_Nil [of sep "s @ [c]"] by (cases "split_on sep (s @ [c])") auto
  from Cons sp sp' show ?case by (cases ls) (auto split: if_splits)
qed

lemma split_on_lines_no_sep: "l \<in> set (split_on sep s) \<Longrightarrow> sep \<notin> set l"
proof (induction s arbitrary: l)
  case Nil
  then show ?case by simp
next
  case (Cons c s)
  obtain k ks where sp: "split_on sep s = k # ks"
    using split_on_not_Nil [of sep s] by (cases "split_on sep s") auto
  from Cons sp show ?case by (auto split: if_splits)
qed

lemma split_on_join:
  "ls \<noteq> [] \<Longrightarrow> (\<forall>l\<in>set ls. sep \<notin> set l) \<Longrightarrow> split_on sep (py_join [sep] ls) = ls"
proof (induction "[sep]" ls rule: py_join.induct)
  case 1
  then show ?case by simp
next
  case (2 x)
  then show ?case by (simp add: split_on_no_sep)
next
  case (3 x y ys)
  then show ?case by (simp add: split_on_append split_on_no_sep)
qed

lemma strip_Cons_space: "isspace c \<Longrightarrow> py_strip (c # l) = py_strip l"
  by (simp add: py_strip_def py_lstrip_def)

lemma rstrip_snoc_space: "isspace c \<Longrightarrow> py_rstrip (l @ [c]) = py_rstrip l"
  by (simp add: py_rstrip_def)

lemma strip_snoc_space: "isspace c \<Longrightarrow> py_strip (l @ [c]) = py_strip l"
proof (cases "list_all isspace l")
  case True
  assume "isspace c"
  with True have d: "dropWhile isspace (l @ [c]) = []" "dropWhile isspace l = []"
    by (auto simp: list_all_iff)
  show ?thesis unfolding py_strip_def py_lstrip_def d ..
next
  case False
  assume c: "isspace c"
  from False obtain x where "x \<in> set l" "\<not> isspace x" by (auto simp: list_all_iff)
  then have "dropWhile isspace (l @ [c]) = dropWhile isspace l @ [c]"
    by (intro dropWhile_append1)
  then show ?thesis using c by (simp add: py_strip_def py_lstrip_def rstrip_snoc_space)
qed

lemma strip_append_spaces: "list_all isspace ws \<Longrightarrow> py_strip (l @ ws) = py_strip l"
proof (induction ws rule: rev_induct)
  case Nil
  then show ?case by simp
next
  case (snoc c ws)
  then have "py_strip ((l @ ws) @ [c]) = py_strip (l @ ws)"
    by (intro strip_snoc_space) simp
  with snoc show ?case by simp
qed

lemma strip_rstrip: "py_strip (py_rstrip s) = py_strip s"
proof -
  obtain ws where ws: "list_all isspace ws" "s = py_rstrip s @ ws"
    using rstrip_decomp by blast
  then have "py_strip s = py_strip (py_rstrip s @ ws)" by simp
  also have "\<dots> = py_strip (py_rstrip s)" using ws(1) by (rule strip_append_spaces)
  finally show ?thesis by simp
qed

lemma rstrip_Cons_nonspace: "\<not> isspace x \<Longrightarrow> py_rstrip (x # xs) = x # py_rstrip xs"
proof (cases "list_all isspace xs")
  case True
  assume x: "\<not> isspace x"
  from True have a: "\<forall>y\<in>set (rev xs). isspace y" by (simp add: list_all_iff)
  then have "dropWhile isspace (rev xs @ [x]) = dropWhile isspace [x]"
    by (intro dropWhile_append2) auto
  moreover from a have "dropWhile isspace (rev xs) = []" by simp
  ultimately show ?thesis using x unfolding py_rstrip_def by simp
next
  case False
  then obtain y where "y \<in> set (rev xs)" "\<not> isspace y" by (auto simp: list_all_iff)
  then have "dropWhile isspace (rev xs @ [x]) = dropWhile isspace (rev xs) @ [x]"
    by (intro dropWhile_append1)
  then show ?thesis by (simp add: py_rstrip_def)
qed

lemma strip_Cons_nonspace: "\<not> isspace x \<Longrightarrow> py_strip (x # xs) = x # py_rstrip xs"
  by (simp add: py_strip_def py_lstrip_def rstrip_Cons_nonspace)

lemma strip_startswith:
  "startswith (py_strip u) [x] \<longleftrightarrow> (py_lstrip u \<noteq> [] \<and> hd (py_lstrip u) = x)"
proof (cases "py_lstrip u")
  case Nil
  then show ?thesis by (simp add: py_strip_def py_rstrip_def startswith_def)
next
  case (Cons y r)
  then have "\<not> isspace y"
    unfolding py_lstrip_def by (metis hd_dropWhile list.sel(1) list.distinct(1))
  then have "py_strip u = y # py_rstrip r"
    using Cons by (simp add: py_strip_def rstrip_Cons_nonspace)
  with Cons show ?thesis by (simp add: startswith_def)
qed

lemma lstrip_append: "py_lstrip s \<noteq> [] \<Longrightarrow> py_lstrip (s @ t) = py_lstrip s @ t"
  unfolding py_lstrip_def
  by (metis dropWhile_append1 dropWhile_eq_Nil_conv)

lemma lstrip_Nil_split:
  assumes "py_lstrip s = []"
  shows "py_split s = []"
proof -
  from assms have e: "dropWhile isspace s = []" unfolding py_lstrip_def .
  have "split_ws [] [] = split_ws s []" using split_ws_lstrip [of s] unfolding e .
  then show ?thesis by (simp add: py_split_def)
qed

lemma split_ws_append_space:
  "isspace c \<Longrightarrow> split_ws (a @ c # b) cur = split_ws a cur @ split_ws b []"
  by (induction a arbitrary: cur) auto

lemma py_split_append_space:
  "py_split (a @ '' '' @ b) = py_split a @ py_split b"
  by (simp add: py_split_def split_ws_append_space isspace_def)

lemma jobs_step_strip:
  "py_strip raw = py_strip raw' \<Longrightarrow> jobs_step now st raw = jobs_step now st raw'"
  by (simp add: jobs_step_def)

lemma jobs_step_blank: "jobs_step now (cm, i, js) [] = ([], i, js)"
  by (simp add: jobs_step_def py_strip_def py_lstrip_def py_rstrip_def)

lemma scan_leading_space:
  assumes "isspace c"
  shows "foldl (jobs_step now) ([], i, js) (split_on newline (c # s)) =
         foldl (jobs_step now) ([], i, js) (split_on newline s)"
proof (cases "c = newline")
  case True
  then show ?thesis by (simp add: jobs_step_blank)
next
  case False
  obtain l ls where sp: "split_on newline s = l # ls"
    using split_on_not_Nil [of newline s] by (cases "split_on newline s") auto
  have "jobs_step now ([], i, js) (c # l) = jobs_step now ([], i, js) l"
    using assms by (intro jobs_step_strip strip_Cons_space)
  with False sp show ?thesis by simp
qed

lemma scan_leading_spaces:
  "list_all isspace ws \<Longrightarrow>
   foldl (jobs_step now) ([], i, js) (split_on newline (ws @ s)) =
   foldl (jobs_step now) ([], i, js) (split_on newline s)"
proof (induction ws)
  case Nil
  then show ?case by simp
next
  case (Cons c ws)
  then have "foldl (jobs_step now) ([], i, js) (split_on newline (c # (ws @ s))) =
             foldl (jobs_step now) ([], i, js) (split_on newline (ws @ s))"
    by (intro scan_leading_space) simp
  with Cons show ?case by (simp del: split_on.simps)
qed

lemma scan_trailing_space:
  assumes "isspace c"
  shows "snd (foldl (jobs_step now) st (split_on newline (s @ [c]))) =
         snd (foldl (jobs_step now) st (split_on newline s))"
proof (cases "c = newline")
  case True
  obtain cm i js where st: "foldl (jobs_step now) st (split_on newline s) = (cm, i, js)"
    by (cases "foldl (jobs_step now) st (split_on newline s)") auto
  with True show ?thesis by (simp add: split_on_snoc_sep jobs_step_blank)
next
  case False
  let ?ls = "split_on newline s"
  have ne: "?ls \<noteq> []" by (rule split_on_not_Nil)
  have "foldl (jobs_step now) st (butlast ?ls @ [last ?ls @ [c]]) =
        jobs_step now (foldl (jobs_step now) st (butlast ?ls)) (last ?ls @ [c])"
    by simp
  also have "\<dots> = jobs_step now (foldl (jobs_step now) st (butlast ?ls)) (last ?ls)"
    using assms by (intro jobs_step_strip strip_snoc_space)
  also have "\<dots> = foldl (jobs_step now) st (butlast ?ls @ [last ?ls])" by simp
  also have "\<dots> = foldl (jobs_step now) st ?ls" using ne by simp
  finally show ?thesis using False by (simp add: split_on_snoc_other)
qed

lemma scan_trailing_spaces:
  "list_all isspace ws \<Longrightarrow>
   snd (foldl (jobs_step now) st (split_on newline (s @ ws))) =
   snd (foldl (jobs_step now) st (split_on newline s))"
proof (induction ws rule: rev_induct)
  case Nil
  then show ?case by simp
next
  case (snoc c ws)
  then have "snd (foldl (jobs_step now) st (split_on newline ((s @ ws) @ [c]))) =
             snd (foldl (jobs_step now) st (split_on newline (s @ ws)))"
    by (intro scan_trailing_space) simp
  with snoc show ?case by simp
qed

lemma lstrip_decomp: "\<exists>ws. list_all isspace ws \<and> s = ws @ py_lstrip s"
proof -
  have "s = takeWhile isspace s @ dropWhile isspace s" by simp
  moreover have "list_all isspace (takeWhile isspace s)"
    by (simp add: list_all_iff) (meson set_takeWhileD)
  ultimately show ?thesis unfolding py_lstrip_def by blast
qed

lemma scan_strip:
  "snd (scan_jobs now (split_on newline (py_strip out))) =
   snd (scan_jobs now (split_on newline out))"
proof -
  obtain ws1 where w1: "list_all isspace ws1" "out = ws1 @ py_lstrip out"
    using lstrip_decomp by blast
  obtain ws2 where w2: "list_all isspace ws2" "py_lstrip out = py_strip out @ ws2"
    using rstrip_decomp [of "py_lstrip out"] unfolding py_strip_def by blast
  have "scan_jobs now (split_on newline out) =
        scan_jobs now (split_on newline (ws1 @ py_lstrip out))"
    using w1(2) by simp
  also have "\<dots> = scan_jobs now (split_on newline (py_lstrip out))"
    unfolding scan_jobs_def using w1(1) by (rule scan_leading_spaces)
  finally have "snd (scan_jobs now (split_on newline out)) =
                snd (scan_jobs now (split_on newline (py_strip out @ ws2)))"
    using w2(2) by simp
  also have "\<dots> = snd (scan_jobs now (split_on newline (py_strip out)))"
    unfolding scan_jobs_def using w2(1) by (rule scan_trailing_spaces)
  finally show ?thesis by simp
qed

lemma jobs_step_index:
  "fst (snd st) = length (snd (snd st)) \<Longrightarrow>
   fst (snd (jobs_step now st raw)) = length (snd (snd (jobs_step now st raw)))"
  by (cases st) (simp add: jobs_step_def Let_def)

lemma foldl_jobs_index:
  "fst (snd st) = length (snd (snd st)) \<Longrightarrow>
   fst (snd (foldl (jobs_step now) st ls)) = length (snd (snd (foldl (jobs_step now) st ls)))"
  by (induction ls arbitrary: st) (simp_all add: jobs_step_index)

lemma scan_jobs_index:
  "fst (snd (scan_jobs now ls)) = length (snd (snd (scan_jobs now ls)))"
  unfolding scan_jobs_def by (rule foldl_jobs_index) simp

lemma jobs_step_comment:
  assumes "cmt \<noteq> []"
  shows "jobs_step now (cm, i, js) (''#'' @ cmt) = (py_strip cmt, i, js)"
proof -
  have ns: "\<not> isspace CHR ''#''" by (simp add: isspace_def)
  have "py_strip (''#'' @ cmt) = CHR ''#'' # py_rstrip cmt"
    using strip_Cons_nonspace [OF ns] by simp
  then show ?thesis
    by (simp add: jobs_step_def startswith_def strip_rstrip)
qed

lemma jobs_step_entry:
  assumes "length (py_split sched) = 5" and "\<not> startswith (py_strip sched) ''#''"
  shows "jobs_step now (cm, i, js) (sched @ '' '' @ cmd) =
           ([], i + 1,
            js @ [(added_job now i sched cmd [])
                    \<lparr>comment := (if cm = [] then ''Custom cron job'' else cm)\<rparr>])"
proof -
  let ?raw = "sched @ '' '' @ cmd"
  have parts: "py_split (py_strip ?raw) = py_split sched @ py_split cmd"
    by (simp only: py_split_strip py_split_append_space)
  have l5: "5 \<le> length (py_split (py_strip ?raw))" using assms(1) parts by simp
  have ne: "py_lstrip sched \<noteq> []"
    using assms(1) lstrip_Nil_split [of sched] by auto
  then have "py_lstrip ?raw = py_lstrip sched @ '' '' @ cmd" by (rule lstrip_append)
  with ne have "hd (py_lstrip ?raw) = hd (py_lstrip sched)" "py_lstrip ?raw \<noteq> []" by simp_all
  then have "startswith (py_strip ?raw) ''#'' = startswith (py_strip sched) ''#''"
    using ne by (simp add: strip_startswith)
  with assms(2) have nh: "\<not> startswith (py_strip ?raw) ''#''" by simp
  have nn: "py_strip ?raw \<noteq> []"
    using l5 by (auto simp: py_split_def)
  have tk: "take 5 (py_split (py_strip ?raw)) = py_split sched"
    "drop 5 (py_split (py_strip ?raw)) = py_split cmd"
    using assms(1) parts by simp_all
  show ?thesis
    using nn nh l5 tk by (simp add: jobs_step_def Let_def added_job_def)
qed

text \<open>
  C9 (as the code has it). When \<^verbatim>\<open>add_cron_job\<close> succeeds for a schedule of five
  tokens and a non-empty comment, where no input contains a newline or a carriage
  return and the schedule does not begin with \<^verbatim>\<open>#\<close> after trimming, the list afterwards is the list
  before (at the same clock value) followed by one entry: its index is the number of
  entries before, its schedule and command are the tokens of the inputs joined by
  single blanks, and its comment is the trimmed input.
\<close>

theorem add_then_list:
  assumes "fst (add_cron_job ok tmp sched cmd cmt w)"
      and "length (py_split sched) = 5"
      and "cmt \<noteq> []"
      and "one_line sched" and "one_line cmd" and "one_line cmt"
      and "\<not> startswith (py_strip sched) ''#''"
  shows "get_cron_jobs now (snd (add_cron_job ok tmp sched cmd cmt w)) =
           get_cron_jobs now w @
             [added_job now (length (get_cron_jobs now w)) sched cmd cmt]"
proof -
  let ?L0 = "case crontab_l w of None \<Rightarrow> [] | Some out \<Rightarrow> split_on newline (py_strip out)"
  let ?ls = "?L0 @ [''#'' @ cmt, sched @ '' '' @ cmd]"
  let ?staged = "py_join [newline] ?ls @ [newline]"
  have ok: "ok ?staged"
    using assms(1,3) by (simp add: add_cron_job_def Let_def split: if_splits)
  then have tab: "crontab (snd (add_cron_job ok tmp sched cmd cmt w)) = Some ?staged"
    using assms(3) by (simp add: add_cron_job_def Let_def)
  have nosep0: "\<forall>l\<in>set ?L0. newline \<notin> set l"
    by (auto split: option.splits dest: split_on_lines_no_sep)
  have chars: "newline \<noteq> CHR ''#''" "newline \<noteq> CHR '' ''"
    "carriage_return \<noteq> CHR ''#''" "carriage_return \<noteq> CHR '' ''"
    "carriage_return \<noteq> newline"
    by (simp_all add: newline_def carriage_return_def)
  with nosep0 assms(4-6) have nosep: "\<forall>l\<in>set ?ls. newline \<notin> set l"
    by (auto simp: one_line_def)
  have nocr0: "\<forall>l\<in>set ?L0. carriage_return \<notin> set l"
  proof (cases "crontab w")
    case None
    then show ?thesis by (simp add: crontab_l_def)
  next
    case (Some raw)
    have "set l \<subseteq> set (universal_newlines raw)"
      if "l \<in> set (split_on newline (py_strip (universal_newlines raw)))" for l
      using split_on_lines_subset [OF that] set_strip_subset [of "universal_newlines raw"]
      by blast
    with Some show ?thesis
      using universal_newlines_no_cr [of raw] by (auto simp: crontab_l_def)
  qed
  with chars assms(4-6) have nocr: "\<forall>l\<in>set ?ls. carriage_return \<notin> set l"
    by (auto simp: one_line_def)
  have "carriage_return \<notin> set ?staged"
  proof
    assume "carriage_return \<in> set ?staged"
    with chars(5) have "carriage_return \<in> set (py_join [newline] ?ls)" by simp
    from set_py_join [OF this] chars(5) nocr show False by auto
  qed
  then have read: "crontab_l (snd (add_cron_job ok tmp sched cmd cmt w)) = Some ?staged"
    using tab by (simp add: crontab_l_def universal_newlines_id)
  have lines: "split_on newline ?staged = ?ls @ [[]]"
    using nosep by (simp only: split_on_snoc_sep) (simp add: split_on_join)
  obtain cm0 i0 js0 where st0: "scan_jobs now ?L0 = (cm0, i0, js0)"
    by (cases "scan_jobs now ?L0") auto
  have before: "get_cron_jobs now w = js0 \<and> i0 = length js0"
  proof (cases "crontab_l w")
    case None
    with st0 show ?thesis by (simp add: get_cron_jobs_def scan_jobs_def)
  next
    case (Some out)
    with st0 have "snd (scan_jobs now (split_on newline out)) = (i0, js0)"
      using scan_strip [of now out] by simp
    moreover have "fst (snd (scan_jobs now (split_on newline out))) =
                   length (snd (snd (scan_jobs now (split_on newline out))))"
      by (rule scan_jobs_index)
    ultimately show ?thesis using Some by (simp add: get_cron_jobs_def)
  qed
  have "scan_jobs now (?ls @ [[]]) =
          jobs_step now (jobs_step now (jobs_step now (scan_jobs now ?L0) (''#'' @ cmt))
            (sched @ '' '' @ cmd)) []"
    by (simp add: scan_jobs_def)
  also have "\<dots> = ([], i0 + 1, js0 @ [added_job now i0 sched cmd cmt])"
    unfolding st0 jobs_step_comment [OF assms(3)] jobs_step_entry [OF assms(2,7)] jobs_step_blank
    by (simp add: added_job_def)
  finally have "snd (snd (scan_jobs now (split_on newline ?staged))) =
                  js0 @ [added_job now i0 sched cmd cmt]"
    using lines by simp
  with read before show ?thesis by (simp add: get_cron_jobs_def)
qed

theorem add_then_list_witness:
  "fst (add_cron_job (\<lambda>_. True) ''/tmp/tmpk3.cron'' ''0 3 * * *'' ''/bin/x -v'' ''nightly'' world0) \<and>
   length (py_split ''0 3 * * *'') = 5 \<and>
   \<not> startswith (py_strip ''0 3 * * *'') ''#'' \<and>
   map index (get_cron_jobs 63000000000000000
     (snd (add_cron_job (\<lambda>_. True) ''/tmp/tmpk3.cron'' ''0 3 * * *'' ''/bin/x -v'' ''nightly'' world0))) =
     [0, 1] \<and>
   map schedule (get_cron_jobs 63000000000000000
     (snd (add_cron_job (\<lambda>_. True) ''/tmp/tmpk3.cron'' ''0 3 * * *'' ''/bin/x -v'' ''nightly'' world0))) =
     [''0 2 * * *'', ''0 3 * * *''] \<and>
   map command (get_cron_jobs 63000000000000000
     (snd (add_cron_job (\<lambda>_. True) ''/tmp/tmpk3.cron'' ''0 3 * * *'' ''/bin/x -v'' ''nightly'' world0))) =
     [''/bin/backup.sh'', ''/bin/x -v''] \<and>
   map comment (get_cron_jobs 63000000000000000
     (snd (add_cron_job (\<lambda>_. True) ''/tmp/tmpk3.cron'' ''0 3 * * *'' ''/bin/x -v'' ''nightly'' world0))) =
     [''Custom cron job'', ''nightly'']"
proof -
  have h1: "fst (add_cron_job (\<lambda>_. True) ''/tmp/tmpk3.cron'' ''0 3 * * *'' ''/bin/x -v'' ''nightly'' world0)"
    by code_simp
  have h2: "length (py_split ''0 3 * * *'') = 5" by code_simp
  have h3: "''nightly'' \<noteq> []" by simp
  have h4: "one_line ''0 3 * * *''" by code_simp
  have h5: "one_line ''/bin/x -v''" by code_simp
  have h6: "one_line ''nightly''" by code_simp
  have h7: "\<not> startswith (py_strip ''0 3 * * *'') ''#''" by code_simp
  let ?after = "get_cron_jobs 63000000000000000 world0 @
     [added_job 63000000000000000 (length (get_cron_jobs 63000000000000000 world0))
        ''0 3 * * *'' ''/bin/x -v'' ''nightly'']"
  have v1: "map index ?after = [0, 1]" by code_simp
  have v2: "map schedule ?after = [''0 2 * * *'', ''0 3 * * *'']" by code_simp
  have v3: "map command ?after = [''/bin/backup.sh'', ''/bin/x -v'']" by code_simp
  have v4: "map comment ?after = [''Custom cron job'', ''nightly'']" by code_simp
  show ?thesis
    using add_then_list [OF h1 h2 h3 h4 h5 h6 h7, of 63000000000000000] h1 h2 h7 v1 v2 v3 v4
    by (simp only: simp_thms)
qed

text \<open>
  C9 as stated fails: a command with two blanks between its words comes back with one.
\<close>

theorem add_then_list_rejoins_command:
  "fst (add_cron_job (\<lambda>_. True) ''/tmp/tmpk3.cron'' ''0 3 * * *'' ''echo  hi'' ''nightly'' world0) \<and>
   length (py_split ''0 3 * * *'') = 5 \<and>
   command (last (get_cron_jobs 63000000000000000
     (snd (add_cron_job (\<lambda>_. True) ''/tmp/tmpk3.cron'' ''0 3 * * *'' ''echo  hi'' ''nightly'' world0)))) =
     ''echo hi'' \<and>
   command (last (get_cron_jobs 63000000000000000
     (snd (add_cron_job (\<lambda>_. True) ''/tmp/tmpk3.cron'' ''0 3 * * *'' ''echo  hi'' ''nightly'' world0)))) \<noteq>
     ''echo  hi''"
  by code_simp

subsection \<open>Deleting an index out of range\<close>

lemma get_cron_jobs_trimmed:
  assumes "crontab w' = Some (py_strip (universal_newlines raw) @ [newline])"
      and "crontab w = Some raw"
  shows "get_cron_jobs now w' = get_cron_jobs now w"
proof -
  let ?out = "universal_newlines raw"
  have sp: "isspace newline" by (simp add: isspace_def newline_def)
  have "carriage_return \<noteq> newline" by (simp add: newline_def carriage_return_def)
  then have "carriage_return \<notin> set (py_strip ?out @ [newline])"
    using set_strip_subset [of ?out] universal_newlines_no_cr [of raw] by auto
  then have read: "crontab_l w' = Some (py_strip ?out @ [newline])"
    using assms(1) by (simp add: crontab_l_def universal_newlines_id)
  have "snd (scan_jobs now (split_on newline (py_strip ?out @ [newline]))) =
        snd (scan_jobs now (split_on newline (py_strip ?out)))"
    unfolding scan_jobs_def using sp by (rule scan_trailing_space)
  moreover have "crontab_l w = Some ?out" using assms(2) by (simp add: crontab_l_def)
  ultimately show ?thesis
    using read by (simp add: get_cron_jobs_def scan_strip)
qed

text \<open>
  C1 (as the code has it). For a table that can be read and an index that the loop of
  \<^verbatim>\<open>delete_cron_job\<close> does not reach, no line is dropped: the text staged is the
  table text as read (line ends translated), trimmed, and a final newline; the result
  is the outcome of the install step; the table afterwards is the staged text when the
  install succeeds and the old text when it fails; and in both cases the list of
  entries is the one before.
\<close>

theorem delete_out_of_range:
  assumes "crontab w = Some raw"
      and "job_index < 0 \<or> int (delete_count raw) \<le> job_index"
  shows "fst (delete_cron_job ok tmp job_index w) =
           ok (py_strip (universal_newlines raw) @ [newline]) \<and>
         crontab (snd (delete_cron_job ok tmp job_index w)) =
           (if ok (py_strip (universal_newlines raw) @ [newline])
            then Some (py_strip (universal_newlines raw) @ [newline]) else Some raw) \<and>
         get_cron_jobs now (snd (delete_cron_job ok tmp job_index w)) = get_cron_jobs now w"
proof -
  note r = delete_no_match_result [OF assms, of ok tmp]
  have "get_cron_jobs now (snd (delete_cron_job ok tmp job_index w)) = get_cron_jobs now w"
  proof (cases "ok (py_strip (universal_newlines raw) @ [newline])")
    case True
    with r have "crontab (snd (delete_cron_job ok tmp job_index w)) =
                   Some (py_strip (universal_newlines raw) @ [newline])"
      by simp
    then show ?thesis using assms(1) by (rule get_cron_jobs_trimmed)
  next
    case False
    with r assms(1) show ?thesis by (simp add: get_cron_jobs_def crontab_l_def)
  qed
  with r show ?thesis by simp
qed

theorem delete_out_of_range_witness:
  "crontab world2 = Some table2 \<and> int (delete_count table2) \<le> 5 \<and>
   fst (delete_cron_job (\<lambda>_. True) ''/tmp/tmpk3.cron'' 5 world2) = True \<and>
   crontab (snd (delete_cron_job (\<lambda>_. True) ''/tmp/tmpk3.cron'' 5 world2)) =
     Some (''A=1'' @ [newline] @ ''0 2 * * * /a'' @ [newline]) \<and>
   get_cron_jobs 63000000000000000 (snd (delete_cron_job (\<lambda>_. True) ''/tmp/tmpk3.cron'' 5 world2)) =
     get_cron_jobs 63000000000000000 world2"
proof -
  have h1: "crontab world2 = Some table2" by (simp add: world2_def)
  have h2: "(5::int) < 0 \<or> int (delete_count table2) \<le> 5" by code_simp
  have h3: "py_strip (universal_newlines table2) @ [newline] =
            ''A=1'' @ [newline] @ ''0 2 * * * /a'' @ [newline]" by code_simp
  have h4: "int (delete_count table2) \<le> 5" by code_simp
  show ?thesis
    using delete_out_of_range [OF h1 h2, of "\<lambda>_. True" "''/tmp/tmpk3.cron''" 63000000000000000]
      h1 h3 h4
    by simp
qed

text \<open>
  C1 as stated fails: on the one-entry table, index 7 is out of range and the result
  is True when the install succeeds.
\<close>

theorem delete_out_of_range_reports_success:
  "int (delete_count table0) \<le> 7 \<and>
   fst (delete_cron_job (\<lambda>_. True) ''/tmp/tmpk3.cron'' 7 world0) \<noteq> False"
  by code_simp

end
